theory Spec2Isabelle
  imports Complex_Main "HOL-Library.Word" "HOL-Library.Sublist" "HOL-Library.AList"
begin

unbundle bit_operations_syntax

section \<open>SnowJamKun: ingestion, archive, change detection, staleness\<close>

text \<open>
  A shallow embedding of the Python backend (\<^verbatim>\<open>backend/app\<close>): \<^verbatim>\<open>config.py\<close>,
  \<^verbatim>\<open>storage.py\<close>, \<^verbatim>\<open>incoming.py\<close>, \<^verbatim>\<open>detection.py\<close> and the staleness part of
  \<^verbatim>\<open>main.py\<close>. Names follow the source; a leading underscore of a Python name is
  dropped (\<^verbatim>\<open>_ensure_odd\<close> is \<open>ensure_odd\<close>).
\<close>

subsection \<open>Python values\<close>

text \<open>Exceptions are values: a function that can raise returns \<open>py_error + 'a\<close>.\<close>

datatype py_error = OSError | ShutilError | ValueError | ZeroDivisionError

text \<open>
  A \<^verbatim>\<open>datetime\<close> (always timezone-aware UTC in this program): the calendar fields that
  \<^verbatim>\<open>strftime\<close> reads, and the point in time, in microseconds since the epoch, that
  comparison and subtraction of two datetimes use. A file's \<^verbatim>\<open>st_mtime\<close> is stored in
  this form, that is, after \<^verbatim>\<open>datetime.fromtimestamp(st_mtime, tz=timezone.utc)\<close>.
  The range of the Python type (years 1 to 9999) is not part of the record; theorems
  that depend on it say so.
\<close>

record datetime =
  year :: nat
  month :: nat
  day :: nat
  micros :: int


subsection \<open>config.py: Settings\<close>

record Settings =
  threshold :: rat
  consecutive_hits :: int
  binary_threshold :: int
  blur_kernel :: int
  overlay_color :: string
  overlay_alpha :: rat
  delay_monitor_enabled :: bool
  delay_threshold_seconds :: int
  alarm_enabled :: bool
  slack_webhook_url :: string
  slack_bot_token :: string
  slack_channel :: string
  mask_inclusive :: bool
  gpio_pin :: "int option"

text \<open>The \<^verbatim>\<open>Field(..., ge=, le=)\<close> constraints that \<^verbatim>\<open>load_settings\<close> validates.\<close>

definition Settings_valid :: "Settings \<Rightarrow> bool" where
  "Settings_valid s \<longleftrightarrow>
     0 \<le> threshold s \<and> 1 \<le> consecutive_hits s \<and>
     0 \<le> binary_threshold s \<and> binary_threshold s \<le> 255 \<and>
     1 \<le> blur_kernel s \<and>
     0 \<le> overlay_alpha s \<and> overlay_alpha s \<le> 1 \<and>
     1 \<le> delay_threshold_seconds s"

definition default_settings :: Settings where
  "default_settings =
     \<lparr>threshold = 15 / 100, consecutive_hits = 3, binary_threshold = 30, blur_kernel = 3,
      overlay_color = ''#ff69b4'', overlay_alpha = 35 / 100, delay_monitor_enabled = True,
      delay_threshold_seconds = 300, alarm_enabled = True, slack_webhook_url = [],
      slack_bot_token = [], slack_channel = [], mask_inclusive = True, gpio_pin = Some 17\<rparr>"

subsection \<open>detection.py: the smoothing kernel size\<close>

text \<open>
  \<^verbatim>\<open>return value if value % 2 == 1 else value + 1\<close>. Python's \<^verbatim>\<open>%\<close> with a positive
  modulus is non-negative, like \<open>mod\<close> on \<open>int\<close>.
\<close>

definition ensure_odd :: "int \<Rightarrow> int" where
  "ensure_odd v = (if v mod 2 = 1 then v else v + 1)"

subsection \<open>lifecycle.py and main.py: the ingestion state and staleness\<close>





subsection \<open>Paths\<close>

text \<open>
  A \<^verbatim>\<open>pathlib.Path\<close> is the list of its components; the empty list is the path
  \<^verbatim>\<open>.\<close>, whose \<^verbatim>\<open>name\<close> is empty. \<^verbatim>\<open>name\<close>, \<^verbatim>\<open>parent\<close>, \<^verbatim>\<open>stem\<close> and
  \<^verbatim>\<open>with_name\<close> follow pathlib: the stem cuts the name at its last dot unless that dot
  is the first or the last character; \<^verbatim>\<open>with_name\<close> raises \<^verbatim>\<open>ValueError\<close> on a path
  with an empty name and on an invalid new name.
\<close>

type_synonym path = "string list"

definition path_name :: "path \<Rightarrow> string" where
  "path_name p = (if p = [] then [] else last p)"

definition path_parent :: "path \<Rightarrow> path" where
  "path_parent p = butlast p"

text \<open>\<^verbatim>\<open>str.rfind\<close> for one character: the last index of \<open>c\<close>, or \<open>-1\<close>.\<close>

fun rfind :: "char \<Rightarrow> string \<Rightarrow> int" where
  "rfind c [] = - 1"
| "rfind c (x # xs) =
     (let r = rfind c xs in if 0 \<le> r then r + 1 else if x = c then 0 else - 1)"

definition path_stem :: "path \<Rightarrow> string" where
  "path_stem p =
     (let name = path_name p; i = rfind (CHR ''.'') name
      in if 0 < i \<and> i < int (length name) - 1 then take (nat i) name else name)"

definition with_name :: "path \<Rightarrow> string \<Rightarrow> py_error + path" where
  "with_name p name =
     (if path_name p = [] then Inl ValueError
      else if name = [] \<or> CHR ''/'' \<in> set name \<or> name = ''.'' then Inl ValueError
      else Inr (butlast p @ [name]))"

subsection \<open>detection.py: the overlay name\<close>

text \<open>
  \<^verbatim>\<open>re.sub(r"(_mask)+$", "", stem)\<close>. The pattern matches, at the leftmost position
  where it can, one or more \<^verbatim>\<open>_mask\<close> followed by \<^verbatim>\<open>$\<close>; in Python \<^verbatim>\<open>$\<close> holds at
  the end of the string and also just before a newline that ends the string.
  \<open>mask_run s\<close> is the text left after a match that starts at the head of \<open>s\<close>
  (empty, or the final newline), and \<open>None\<close> when there is no match there.
  \<open>re_sub_mask\<close> scans for the leftmost match and removes it; what follows a match
  is at most a newline, so there is no second match.
\<close>

function mask_run :: "string \<Rightarrow> string option" where
  "mask_run s =
     (if take 5 s = ''_mask''
      then (let r = drop 5 s in if r = [] \<or> r = [CHR 0x0A] then Some r else mask_run r)
      else None)"
  by pat_completeness auto
termination
proof (relation "measure length")
  show "wf (measure length)" by simp
next
  fix s r :: string
  assume "take 5 s = ''_mask''" and "r = drop 5 s"
  then have "length (take 5 s) = 5" by simp
  then have "5 \<le> length s" by simp
  with \<open>r = drop 5 s\<close> show "(r, s) \<in> measure length" by simp
qed

declare mask_run.simps [simp del]

fun re_sub_mask :: "string \<Rightarrow> string" where
  "re_sub_mask [] = []"
| "re_sub_mask (c # cs) =
     (case mask_run (c # cs) of Some r \<Rightarrow> r | None \<Rightarrow> c # re_sub_mask cs)"

text \<open>
  \<^verbatim>\<open>stem = latest_path.stem; stem = re.sub(...); return latest_path.with_name(f"{stem}_mask.png")\<close>
\<close>

definition overlay_path :: "path \<Rightarrow> py_error + path" where
  "overlay_path latest_path =
     (let stem = path_stem latest_path;
          stem = re_sub_mask stem
      in with_name latest_path (stem @ ''_mask.png''))"

subsection \<open>The file system\<close>

text \<open>
  The directory tree that \<^verbatim>\<open>pathlib\<close> and \<^verbatim>\<open>shutil\<close> act on: an association list
  from paths to nodes, one entry per path. A regular file carries its modification
  time. The order of the list is the order in which the operating system enumerates
  entries (\<^verbatim>\<open>rglob\<close>), which Python leaves unspecified. The path \<^verbatim>\<open>.\<close> is always a
  directory.
\<close>

datatype node = File datetime | Dir

type_synonym fs = "(path \<times> node) list"

definition node_at :: "fs \<Rightarrow> path \<Rightarrow> node option" where
  "node_at fs p = (if p = [] then Some Dir else map_of fs p)"

definition path_exists :: "fs \<Rightarrow> path \<Rightarrow> bool" where
  "path_exists fs p \<longleftrightarrow> node_at fs p \<noteq> None"

definition is_file :: "fs \<Rightarrow> path \<Rightarrow> bool" where
  "is_file fs p = (case node_at fs p of Some (File m) \<Rightarrow> True | _ \<Rightarrow> False)"

definition is_dir :: "fs \<Rightarrow> path \<Rightarrow> bool" where
  "is_dir fs p = (case node_at fs p of Some Dir \<Rightarrow> True | _ \<Rightarrow> False)"

text \<open>\<^verbatim>\<open>root.rglob("*")\<close>: every entry strictly below the directory.\<close>

definition rglob :: "fs \<Rightarrow> path \<Rightarrow> path list" where
  "rglob fs base = filter (strict_prefix base) (map fst fs)"

text \<open>
  Failures of the operating system that do not follow from the tree (permissions, I/O
  errors, a device boundary): which calls fail is a parameter. Each raises \<^verbatim>\<open>OSError\<close>.
\<close>

record faults =
  stat_fails :: "path \<Rightarrow> bool"
  unlink_fails :: "path \<Rightarrow> bool"
  mkdir_fails :: "path \<Rightarrow> bool"
  move_fails :: "path \<Rightarrow> path \<Rightarrow> bool"

definition no_faults :: faults where
  "no_faults = \<lparr>stat_fails = (\<lambda>p. False), unlink_fails = (\<lambda>p. False),
     mkdir_fails = (\<lambda>p. False), move_fails = (\<lambda>p q. False)\<rparr>"

text \<open>
  \<^verbatim>\<open>datetime.fromtimestamp(path.stat().st_mtime, tz=timezone.utc)\<close>. The program calls
  \<^verbatim>\<open>stat\<close> only on a path that \<^verbatim>\<open>is_file\<close> has just accepted; on anything else the
  model raises (\<^verbatim>\<open>FileNotFoundError\<close> is an \<^verbatim>\<open>OSError\<close>).
\<close>

definition st_mtime :: "faults \<Rightarrow> fs \<Rightarrow> path \<Rightarrow> py_error + datetime" where
  "st_mtime fl fs p =
     (if stat_fails fl p then Inl OSError
      else case node_at fs p of Some (File m) \<Rightarrow> Inr m | _ \<Rightarrow> Inl OSError)"


text \<open>
  \<^verbatim>\<open>path.mkdir(parents=True, exist_ok=True)\<close>: every missing ancestor and the path itself
  become directories, from the top; an ancestor (or the path) that is a regular file
  raises. The directories made before a failure stay.
\<close>

fun mkdir_chain :: "faults \<Rightarrow> path list \<Rightarrow> fs \<Rightarrow> py_error option \<times> fs" where
  "mkdir_chain fl [] fs = (None, fs)"
| "mkdir_chain fl (q # qs) fs =
     (case node_at fs q of
        Some Dir \<Rightarrow> mkdir_chain fl qs fs
      | Some (File m) \<Rightarrow> (Some OSError, fs)
      | None \<Rightarrow>
          if mkdir_fails fl q then (Some OSError, fs)
          else mkdir_chain fl qs (fs @ [(q, Dir)]))"

definition mkdir :: "faults \<Rightarrow> path \<Rightarrow> fs \<Rightarrow> py_error option \<times> fs" where
  "mkdir fl p fs = mkdir_chain fl (prefixes p) fs"

text \<open>
  \<^verbatim>\<open>shutil.move(src, dst)\<close> for a regular file \<open>src\<close> (the only use in the program): if
  \<open>dst\<close> is an existing directory the file goes inside it, under its own name, and
  \<^verbatim>\<open>shutil.Error\<close> is raised when that name is taken; otherwise the file is renamed to
  \<open>dst\<close>, replacing a file that is there. The call returns the real destination. A
  failed move leaves the tree as it was.
\<close>

definition shutil_move :: "faults \<Rightarrow> fs \<Rightarrow> path \<Rightarrow> path \<Rightarrow> py_error + path \<times> fs" where
  "shutil_move fl fs src dst =
     (let real_dst = (if is_dir fs dst then dst @ [path_name src] else dst)
      in if is_dir fs dst \<and> path_exists fs real_dst then Inl ShutilError
         else if move_fails fl src real_dst \<or> \<not> is_dir fs (path_parent real_dst) then Inl OSError
         else case node_at fs src of
                Some (File m) \<Rightarrow> Inr (real_dst, AList.update real_dst (File m) (AList.delete src fs))
              | _ \<Rightarrow> Inl OSError)"

subsection \<open>storage.py\<close>

text \<open>
  \<^verbatim>\<open>for path in paths: path.mkdir(parents=True, exist_ok=True)\<close>; the first failure
  propagates.
\<close>

fun ensure_directories :: "faults \<Rightarrow> path list \<Rightarrow> fs \<Rightarrow> py_error option \<times> fs" where
  "ensure_directories fl [] fs = (None, fs)"
| "ensure_directories fl (p # ps) fs =
     (case mkdir fl p fs of
        (Some e, fs') \<Rightarrow> (Some e, fs')
      | (None, fs') \<Rightarrow> ensure_directories fl ps fs')"

text \<open>
  \<^verbatim>\<open>f"{timestamp:%Y}"\<close>, \<^verbatim>\<open>%m\<close> and \<^verbatim>\<open>%d\<close>: the year in four decimal digits, the
  month and the day in two, zero-padded (for a year from 1 to 9999, as Python documents
  \<^verbatim>\<open>%Y\<close>).
\<close>

definition digit :: "nat \<Rightarrow> char" where
  "digit n = ''0123456789'' ! (n mod 10)"

definition strftime_Y :: "datetime \<Rightarrow> string" where
  "strftime_Y t =
     [digit (year t div 1000), digit (year t div 100), digit (year t div 10), digit (year t)]"

definition strftime_m :: "datetime \<Rightarrow> string" where
  "strftime_m t = [digit (month t div 10), digit (month t)]"

definition strftime_d :: "datetime \<Rightarrow> string" where
  "strftime_d t = [digit (day t div 10), digit (day t)]"

text \<open>
  \<^verbatim>\<open>date_dir = storage_root / f"{timestamp:%Y}" / f"{timestamp:%m}" / f"{timestamp:%d}"\<close>,
  \<^verbatim>\<open>return date_dir / filename\<close>. The file name is one path component, as \<^verbatim>\<open>path.name\<close>
  gives it at the only call.
\<close>

definition archive_path :: "path \<Rightarrow> datetime \<Rightarrow> string \<Rightarrow> path" where
  "archive_path storage_root timestamp filename =
     (let date_dir = storage_root @ [strftime_Y timestamp] @ [strftime_m timestamp]
                       @ [strftime_d timestamp]
      in date_dir @ [filename])"




text \<open>
  \<^verbatim>\<open>list_recent_images\<close>. \<^verbatim>\<open>_is_overlay\<close> is \<^verbatim>\<open>"_mask" in p.name\<close>, a substring test.
  \<^verbatim>\<open>sorted(files, key=lambda p: p.stat().st_mtime, reverse=True)\<close> computes every key
  first (a failing \<^verbatim>\<open>stat\<close> propagates) and sorts stably, newest first.
  \<^verbatim>\<open>sorted_files[:limit]\<close> is a Python slice: a negative limit drops that many from
  the end.
\<close>

fun str_contains :: "string \<Rightarrow> string \<Rightarrow> bool" where
  "str_contains sub [] = (sub = [])"
| "str_contains sub (c # cs) = (prefix sub (c # cs) \<or> str_contains sub cs)"

definition is_overlay :: "path \<Rightarrow> bool" where
  "is_overlay p = str_contains ''_mask'' (path_name p)"

fun stat_keys :: "faults \<Rightarrow> fs \<Rightarrow> path list \<Rightarrow> py_error + (path \<times> int) list" where
  "stat_keys fl fs [] = Inr []"
| "stat_keys fl fs (p # ps) =
     (case st_mtime fl fs p of
        Inl e \<Rightarrow> Inl e
      | Inr m \<Rightarrow> (case stat_keys fl fs ps of
                    Inl e \<Rightarrow> Inl e
                  | Inr ks \<Rightarrow> Inr ((p, micros m) # ks)))"

definition slice_to :: "int \<Rightarrow> 'a list \<Rightarrow> 'a list" where
  "slice_to limit xs =
     (if 0 \<le> limit then take (nat limit) xs else take (length xs - nat (- limit)) xs)"

definition list_recent_images :: "faults \<Rightarrow> fs \<Rightarrow> path \<Rightarrow> int \<Rightarrow> bool \<Rightarrow> py_error + path list" where
  "list_recent_images fl fs storage_root limit include_overlays =
     (if \<not> path_exists fs storage_root then Inr []
      else
        let files = filter (is_file fs) (rglob fs storage_root);
            files = (if \<not> include_overlays then filter (\<lambda>p. \<not> is_overlay p) files else files)
        in case stat_keys fl fs files of
             Inl e \<Rightarrow> Inl e
           | Inr keyed \<Rightarrow>
               let sorted_files = map fst (sort_key (\<lambda>(p, k). - k) keyed)
               in Inr (slice_to limit sorted_files))"

subsection \<open>incoming.py\<close>

text \<open>
  The processor is parametric in the state its callback updates. A callback that
  raises is swallowed (\<^verbatim>\<open>except Exception: pass\<close>), so for \<^verbatim>\<open>process_file\<close> a callback
  is a state transformer; \<^verbatim>\<open>lifespan\<close> registers \<open>mark_processed\<close>.
\<close>

record 'st IncomingProcessor =
  incoming_root :: path
  storage_root :: path
  on_processed :: "(datetime \<Rightarrow> 'st \<Rightarrow> 'st) option"

text \<open>
  \<^verbatim>\<open>process_file\<close> returns the value or the exception, the file system and the callback's
  state. \<^verbatim>\<open>stat\<close> and \<^verbatim>\<open>ensure_directories\<close> are outside the \<^verbatim>\<open>try\<close>: their failure
  propagates. \<^verbatim>\<open>except (OSError, shutil.Error): return None\<close> covers the move only.
\<close>

definition process_file ::
  "faults \<Rightarrow> 'st IncomingProcessor \<Rightarrow> path \<Rightarrow> fs \<times> 'st \<Rightarrow> (py_error + path option) \<times> fs \<times> 'st" where
  "process_file fl self path = (\<lambda>(fs, st).
     if \<not> is_file fs path then (Inr None, fs, st)
     else case st_mtime fl fs path of
            Inl e \<Rightarrow> (Inl e, fs, st)
          | Inr timestamp \<Rightarrow>
              let target = archive_path (storage_root self) timestamp (path_name path)
              in case ensure_directories fl [path_parent target] fs of
                   (Some e, fs1) \<Rightarrow> (Inl e, fs1, st)
                 | (None, fs1) \<Rightarrow>
                     (case shutil_move fl fs1 path target of
                        Inl e \<Rightarrow> (Inr None, fs1, st)
                      | Inr (real_dst, fs2) \<Rightarrow>
                          (Inr (Some real_dst), fs2,
                           case on_processed self of None \<Rightarrow> st | Some cb \<Rightarrow> cb timestamp st)))"

text \<open>
  \<^verbatim>\<open>process_pending\<close>: every regular file of the incoming directory (\<^verbatim>\<open>iterdir\<close>, the
  direct children) goes through \<^verbatim>\<open>process_file\<close>; the paths it returned are collected.
  An exception of \<^verbatim>\<open>process_file\<close> ends the sweep.
\<close>

definition iterdir :: "fs \<Rightarrow> path \<Rightarrow> path list" where
  "iterdir fs base = filter (\<lambda>p. p \<noteq> [] \<and> butlast p = base) (map fst fs)"

fun process_each ::
  "faults \<Rightarrow> 'st IncomingProcessor \<Rightarrow> path list \<Rightarrow> path list \<Rightarrow> fs \<times> 'st
     \<Rightarrow> (py_error + path list) \<times> fs \<times> 'st" where
  "process_each fl self [] moved (fs, st) = (Inr moved, fs, st)"
| "process_each fl self (c # cs) moved (fs, st) =
     (case process_file fl self c (fs, st) of
        (Inl e, fs', st') \<Rightarrow> (Inl e, fs', st')
      | (Inr None, fs', st') \<Rightarrow> process_each fl self cs moved (fs', st')
      | (Inr (Some q), fs', st') \<Rightarrow> process_each fl self cs (moved @ [q]) (fs', st'))"

definition process_pending ::
  "faults \<Rightarrow> 'st IncomingProcessor \<Rightarrow> fs \<times> 'st \<Rightarrow> (py_error + path list) \<times> fs \<times> 'st" where
  "process_pending fl self = (\<lambda>(fs, st).
     if \<not> path_exists fs (incoming_root self) then (Inr [], fs, st)
     else process_each fl self (filter (is_file fs) (iterdir fs (incoming_root self))) [] (fs, st))"

subsection \<open>Images and the OpenCV operations\<close>

text \<open>
  A single-channel 8-bit image (a numpy array of \<^verbatim>\<open>uint8\<close>) is the list of its rows; a
  colour image has a blue, green, red triple per pixel. \<^verbatim>\<open>shape\<close> is (rows, columns).
\<close>

type_synonym u8 = "8 word"

type_synonym gray = "u8 list list"

type_synonym bgr = "(u8 \<times> u8 \<times> u8) list list"

definition shape :: "'a list list \<Rightarrow> nat \<times> nat" where
  "shape img = (length img, if img = [] then 0 else length (hd img))"

text \<open>\<^verbatim>\<open>np.ones(target_shape, dtype=np.uint8) * 255\<close>\<close>

definition np_ones_255 :: "nat \<times> nat \<Rightarrow> gray" where
  "np_ones_255 target_shape = replicate (fst target_shape) (replicate (snd target_shape) 255)"

text \<open>
  \<^verbatim>\<open>cv2.threshold(src, thresh, maxval, cv2.THRESH_BINARY)\<close>: \<open>maxval\<close> where
  \<open>src > thresh\<close>, and 0 elsewhere.
\<close>

definition threshold_binary :: "gray \<Rightarrow> int \<Rightarrow> u8 \<Rightarrow> gray" where
  "threshold_binary src thresh maxval = map (map (\<lambda>v. if thresh < uint v then maxval else 0)) src"

text \<open>\<^verbatim>\<open>cv2.absdiff\<close>: the absolute difference, pixel by pixel.\<close>

definition absdiff :: "gray \<Rightarrow> gray \<Rightarrow> gray" where
  "absdiff a b = map2 (map2 (\<lambda>x y. if x \<le> y then y - x else x - y)) a b"

text \<open>
  \<^verbatim>\<open>cv2.bitwise_and(src1, src2, mask=mask)\<close> into a fresh array: the conjunction where
  the mask is non-zero, and 0 elsewhere. (OpenCV rejects arrays of different shapes;
  in the program they have the same shape.)
\<close>

definition bitwise_and_mask :: "gray \<Rightarrow> gray \<Rightarrow> gray \<Rightarrow> gray" where
  "bitwise_and_mask src1 src2 mask_img =
     map2 (\<lambda>(r1, r2) rm. map2 (\<lambda>(x, y) m. if m \<noteq> 0 then x AND y else 0) (zip r1 r2) rm)
       (zip src1 src2) mask_img"

text \<open>
  \<^verbatim>\<open>cv2.morphologyEx\<close> with \<^verbatim>\<open>cv2.getStructuringElement(cv2.MORPH_RECT, (3, 3))\<close>, one
  iteration, default border: erosion takes the minimum and dilation the maximum over
  the 3 by 3 neighbourhood of a pixel, and positions outside the image do not count
  (the default border value is the neutral one for each). \<open>around xs j\<close> is the part of
  \<open>xs\<close> at the indices \<open>j - 1\<close>, \<open>j\<close> and \<open>j + 1\<close> that exist. Opening is erosion then
  dilation; closing is dilation then erosion.
\<close>

definition around :: "'a list \<Rightarrow> nat \<Rightarrow> 'a list" where
  "around xs j = drop (j - 1) (take (j + 2) xs)"

definition window :: "gray \<Rightarrow> nat \<Rightarrow> nat \<Rightarrow> u8 list" where
  "window img i j = concat (map (\<lambda>row. around row j) (around img i))"

definition erode :: "gray \<Rightarrow> gray" where
  "erode img =
     map (\<lambda>i. map (\<lambda>j. foldr min (window img i j) 255) [0..<length (img ! i)]) [0..<length img]"

definition dilate :: "gray \<Rightarrow> gray" where
  "dilate img =
     map (\<lambda>i. map (\<lambda>j. foldr max (window img i j) 0) [0..<length (img ! i)]) [0..<length img]"

definition morph_open :: "gray \<Rightarrow> gray" where
  "morph_open img = dilate (erode img)"

definition morph_close :: "gray \<Rightarrow> gray" where
  "morph_close img = erode (dilate img)"

text \<open>\<^verbatim>\<open>int(cv2.countNonZero(img))\<close>\<close>

definition countNonZero :: "gray \<Rightarrow> int" where
  "countNonZero img = int (sum_list (map (\<lambda>row. length (filter (\<lambda>v. v \<noteq> 0) row)) img))"

text \<open>
  The OpenCV calls whose results the program only passes on are parameters: decoding a
  file (\<^verbatim>\<open>cv2.imread\<close>, \<^verbatim>\<open>None\<close> when it cannot be decoded), resizing to a target shape
  (\<^verbatim>\<open>cv2.resize\<close> with \<^verbatim>\<open>INTER_LINEAR\<close> and \<^verbatim>\<open>INTER_NEAREST\<close>), the luminance
  conversion (\<^verbatim>\<open>cv2.cvtColor(img, cv2.COLOR_BGR2GRAY)\<close>) and
  \<^verbatim>\<open>cv2.GaussianBlur(img, (ksize, ksize), 0)\<close>.
\<close>

record cv2 =
  imread :: "path \<Rightarrow> bgr option"
  imread_gray :: "path \<Rightarrow> gray option"
  resize_linear :: "bgr \<Rightarrow> nat \<times> nat \<Rightarrow> bgr"
  resize_nearest :: "gray \<Rightarrow> nat \<times> nat \<Rightarrow> gray"
  cvtColor_gray :: "bgr \<Rightarrow> gray"
  GaussianBlur :: "gray \<Rightarrow> int \<Rightarrow> gray"

subsection \<open>detection.py: the detection\<close>

text \<open>
  \<^verbatim>\<open>DetectionResult\<close>; the field \<^verbatim>\<open>overlay_path\<close> is \<open>dr_overlay_path\<close> here (the
  function has the name). The rate is a Python float, the quotient of two integers; it
  is kept as the exact rational.
\<close>

record DetectionResult =
  detection_rate :: rat
  changed_pixels :: int
  mask_pixels :: int
  dr_overlay_path :: "path option"
  alarm :: bool

definition read_image :: "cv2 \<Rightarrow> path \<Rightarrow> bgr option" where
  "read_image cv p = (case imread cv p of None \<Rightarrow> None | Some img \<Rightarrow> Some img)"

text \<open>
  \<^verbatim>\<open>_load_mask_image\<close>: all 255 when masking is off, when the artifact does not exist
  and when it does not decode; otherwise the artifact, resized if its shape differs,
  after \<^verbatim>\<open>cv2.threshold(mask, 1, 255, cv2.THRESH_BINARY)\<close>.
\<close>

definition load_mask_image :: "cv2 \<Rightarrow> fs \<Rightarrow> path \<Rightarrow> nat \<times> nat \<Rightarrow> bool \<Rightarrow> gray" where
  "load_mask_image cv fs mask_path target_shape inclusive =
     (if \<not> inclusive then np_ones_255 target_shape
      else if \<not> path_exists fs mask_path then np_ones_255 target_shape
      else case imread_gray cv mask_path of
             None \<Rightarrow> np_ones_255 target_shape
           | Some mask_img \<Rightarrow>
               let mask_img = (if shape mask_img \<noteq> target_shape
                               then resize_nearest cv mask_img target_shape else mask_img)
               in threshold_binary mask_img 1 255)"

definition resize_if_needed :: "cv2 \<Rightarrow> bgr \<Rightarrow> nat \<times> nat \<Rightarrow> bgr" where
  "resize_if_needed cv img target_shape =
     (if shape img = target_shape then img else resize_linear cv img target_shape)"

text \<open>Python's \<^verbatim>\<open>/\<close> on integers raises \<^verbatim>\<open>ZeroDivisionError\<close> on a zero divisor.\<close>

definition py_truediv :: "int \<Rightarrow> int \<Rightarrow> py_error + rat" where
  "py_truediv a b = (if b = 0 then Inl ZeroDivisionError else Inr (of_int a / of_int b))"

text \<open>
  \<^verbatim>\<open>analyze_detection\<close>, line by line. The rendering of the overlay image and its
  \<^verbatim>\<open>cv2.imwrite\<close> do not enter the result and are left out; the overlay's path does.
  \<^verbatim>\<open>alarm = detection_rate >= settings.threshold\<close>.
\<close>

definition analyze_detection ::
  "cv2 \<Rightarrow> fs \<Rightarrow> path \<Rightarrow> path \<Rightarrow> Settings \<Rightarrow> path \<Rightarrow> py_error + DetectionResult option" where
  "analyze_detection cv fs latest_path previous_path settings mask_path =
     (case (read_image cv latest_path, read_image cv previous_path) of
        (Some img_latest, Some img_prev) \<Rightarrow>
          let img_prev = resize_if_needed cv img_prev (shape img_latest);
              gray_latest = cvtColor_gray cv img_latest;
              gray_prev = cvtColor_gray cv img_prev;
              ksize = ensure_odd (blur_kernel settings);
              gray_latest = GaussianBlur cv gray_latest ksize;
              gray_prev = GaussianBlur cv gray_prev ksize;
              diff = absdiff gray_latest gray_prev;
              mask_img = load_mask_image cv fs mask_path (shape diff) (mask_inclusive settings);
              diff = bitwise_and_mask diff diff mask_img;
              binary = threshold_binary diff (binary_threshold settings) 255;
              binary = morph_open binary;
              binary = morph_close binary;
              changed = countNonZero binary;
              n_mask = countNonZero mask_img
          in case (if n_mask > 0 then py_truediv changed n_mask else Inr 0) of
               Inl e \<Rightarrow> Inl e
             | Inr rate \<Rightarrow>
                 (case overlay_path latest_path of
                    Inl e \<Rightarrow> Inl e
                  | Inr overlay \<Rightarrow>
                      Inr (Some \<lparr>detection_rate = rate, changed_pixels = changed,
                                 mask_pixels = n_mask, dr_overlay_path = Some overlay,
                                 alarm = (threshold settings \<le> rate)\<rparr>))
      | _ \<Rightarrow> Inr None)"

text \<open>The number of pixels of an image.\<close>

definition pixels :: "'a list list \<Rightarrow> nat" where
  "pixels img = sum_list (map length img)"

subsection \<open>Reading the model\<close>





subsection \<open>Example data\<close>

text \<open>
  2024-01-05 12:00:00 UTC and, 90 days later, 2024-04-04 12:00:00 UTC; a second before
  and a second after the first.
\<close>

definition t_ex :: datetime where
  "t_ex = \<lparr>year = 2024, month = 1, day = 5, micros = 1704456000000000\<rparr>"

definition t_old_ex :: datetime where
  "t_old_ex = \<lparr>year = 2024, month = 1, day = 5, micros = 1704455999000000\<rparr>"

definition t_new_ex :: datetime where
  "t_new_ex = \<lparr>year = 2024, month = 1, day = 5, micros = 1704456001000000\<rparr>"










text \<open>
  An archive with a raw frame whose name contains \<^verbatim>\<open>_mask\<close> in the middle (the newest
  file), another raw frame, and the overlay derived from that one.
\<close>

definition fs_recent_ex :: fs where
  "fs_recent_ex =
     [([''archive''], Dir), ([''archive'', ''cam_mask_01.jpg''], File t_new_ex),
      ([''archive'', ''cam_02.jpg''], File t_old_ex),
      ([''archive'', ''cam_02_mask.png''], File t_ex)]"

text \<open>
  Two frames of 7 rows and 11 columns, the latest white and the previous black, and a
  mask artifact of the same shape with two active blocks of 3 by 3 pixels, one inactive
  column between them, two pixels away from every border. The luminance of a white
  pixel is 255 and of a black pixel 0, and a Gaussian blur leaves a constant image as it
  is (with \<^verbatim>\<open>blur_kernel = 1\<close> the kernel is a single pixel), so the example's
  conversion and blur are what OpenCV computes on these frames.
\<close>

definition luma :: "u8 \<times> u8 \<times> u8 \<Rightarrow> u8" where
  "luma = (\<lambda>(b, g, r). of_nat ((114 * unat b + 587 * unat g + 299 * unat r + 500) div 1000))"

definition white_ex :: bgr where
  "white_ex = replicate 7 (replicate 11 (255, 255, 255))"

definition black_ex :: bgr where
  "black_ex = replicate 7 (replicate 11 (0, 0, 0))"

definition all255_ex :: gray where
  "all255_ex = replicate 7 (replicate 11 255)"

definition mask_ex :: gray where
  "mask_ex =
     (let z = replicate 11 0; m = [0, 0, 255, 255, 255, 0, 255, 255, 255, 0, 0]
      in [z, z, m, m, m, z, z])"

definition closed_ex :: gray where
  "closed_ex =
     (let z = replicate 11 0; m = [0, 0, 255, 255, 255, 255, 255, 255, 255, 0, 0]
      in [z, z, m, m, m, z, z])"

definition cv_ex :: cv2 where
  "cv_ex = \<lparr>imread = [[''archive'', ''b.jpg''] \<mapsto> white_ex, [''archive'', ''a.jpg''] \<mapsto> black_ex],
     imread_gray = [[''config'', ''mask.png''] \<mapsto> mask_ex],
     resize_linear = (\<lambda>img s. img), resize_nearest = (\<lambda>img s. img),
     cvtColor_gray = map (map luma), GaussianBlur = (\<lambda>img k. img)\<rparr>"

definition fs_mask_ex :: fs where
  "fs_mask_ex = [([''config''], Dir), ([''config'', ''mask.png''], File t_ex)]"

definition settings_ex :: Settings where
  "settings_ex = default_settings\<lparr>blur_kernel := 1\<rparr>"

text \<open>A mask artifact of one pixel, of value 1.\<close>

definition cv_one_ex :: cv2 where
  "cv_one_ex = cv_ex\<lparr>imread_gray := [[''config'', ''mask.png''] \<mapsto> [[1]]]\<rparr>"

section \<open>Properties\<close>

subsection \<open>The smoothing kernel\<close>

text \<open>
  C9. For every configured blur kernel size \<open>k\<close> with \<open>k \<ge> 1\<close> (the constraint of
  \<^verbatim>\<open>Settings.blur_kernel\<close>), the effective kernel size \<open>ensure_odd k\<close> is odd and at
  least \<open>k\<close>; an even \<open>k\<close> is bumped to \<open>k + 1\<close>, the next odd value, and an odd \<open>k\<close>
  is kept.
\<close>

theorem ensure_odd_odd_ge:
  assumes "1 \<le> k"
  shows "odd (ensure_odd k) \<and> k \<le> ensure_odd k \<and>
         ensure_odd k = (if even k then k + 1 else k)"
proof -
  have "k mod 2 = 1 \<longleftrightarrow> odd k"
    by presburger
  then show ?thesis
    by (auto simp: ensure_odd_def)
qed

theorem ensure_odd_odd_ge_witness:
  "(1::int) \<le> 4 \<and> odd (ensure_odd 4) \<and> (4::int) \<le> ensure_odd 4 \<and> ensure_odd 4 = 5 \<and>
   ensure_odd (blur_kernel default_settings) = 3"
  using ensure_odd_odd_ge [of 4] by (simp add: ensure_odd_def default_settings_def)

subsection \<open>Staleness\<close>



subsection \<open>The overlay name\<close>

lemma mask_run_app:
  "mask_run (CHR ''_'' # CHR ''m'' # CHR ''a'' # CHR ''s'' # CHR ''k'' # s) =
     (if s = [] \<or> s = [CHR 0x0A] then Some s else mask_run s)"
  by (subst mask_run.simps) simp

lemma mask_run_Nil: "mask_run [] = None"
  by (subst mask_run.simps) simp

lemma mask_run_tail: "mask_run s = Some r \<Longrightarrow> r = [] \<or> r = [CHR 0x0A]"
proof (induction s rule: mask_run.induct)
  case (1 s)
  from "1.prems" show ?case
    by (subst (asm) mask_run.simps) (auto simp: Let_def split: if_splits dest: "1.IH"[OF _ refl])
qed

lemma mask_run_shape:
  "mask_run s = Some r \<Longrightarrow> \<exists>m. s = concat (replicate (Suc m) ''_mask'') @ r"
proof (induction s rule: mask_run.induct)
  case (1 s)
  from "1.prems" have t: "take 5 s = ''_mask''"
    by (subst (asm) mask_run.simps) (auto split: if_splits)
  then have s: "s = ''_mask'' @ drop 5 s"
    by (metis append_take_drop_id)
  show ?case
  proof (cases "drop 5 s = [] \<or> drop 5 s = [CHR 0x0A]")
    case True
    with "1.prems" t have "r = drop 5 s"
      by (subst (asm) mask_run.simps) (auto simp: Let_def)
    with s have "s = concat (replicate (Suc 0) ''_mask'') @ r" by simp
    then show ?thesis by blast
  next
    case False
    with "1.prems" t have "mask_run (drop 5 s) = Some r"
      by (subst (asm) mask_run.simps) (auto simp: Let_def)
    with "1.IH"[OF t refl False] obtain m where "drop 5 s = concat (replicate (Suc m) ''_mask'') @ r"
      by blast
    with s have "s = concat (replicate (Suc (Suc m)) ''_mask'') @ r"
      by (metis append_assoc concat.simps(2) replicate_Suc)
    then show ?thesis by blast
  qed
qed

lemma re_sub_mask_cases:
  "re_sub_mask s = s \<or>
   (\<exists>pre r. re_sub_mask s = pre @ r \<and> prefix pre s \<and> mask_run (drop (length pre) s) = Some r)"
proof (induction s)
  case Nil
  then show ?case by simp
next
  case (Cons c cs)
  show ?case
  proof (cases "mask_run (c # cs)")
    case (Some r)
    then have "re_sub_mask (c # cs) = [] @ r \<and> prefix [] (c # cs) \<and>
        mask_run (drop (length ([]::string)) (c # cs)) = Some r"
      by simp
    then show ?thesis by blast
  next
    case None
    then have eq: "re_sub_mask (c # cs) = c # re_sub_mask cs" by simp
    from Cons.IH show ?thesis
    proof
      assume "re_sub_mask cs = cs"
      with eq show ?thesis by simp
    next
      assume "\<exists>pre r. re_sub_mask cs = pre @ r \<and> prefix pre cs \<and>
          mask_run (drop (length pre) cs) = Some r"
      then obtain pre r where "re_sub_mask cs = pre @ r" "prefix pre cs"
          "mask_run (drop (length pre) cs) = Some r"
        by blast
      with eq have "re_sub_mask (c # cs) = (c # pre) @ r \<and> prefix (c # pre) (c # cs) \<and>
          mask_run (drop (length (c # pre)) (c # cs)) = Some r"
        by simp
      then show ?thesis by blast
    qed
  qed
qed

lemma set_re_sub_mask: "set (re_sub_mask s) \<subseteq> set s"
proof (induction s)
  case Nil
  then show ?case by simp
next
  case (Cons c cs)
  show ?case
  proof (cases "mask_run (c # cs)")
    case (Some r)
    then obtain m where "c # cs = concat (replicate (Suc m) ''_mask'') @ r"
      using mask_run_shape by blast
    then have "set r \<subseteq> set (c # cs)"
      by (metis set_append sup_ge2)
    with Some show ?thesis by simp
  next
    case None
    with Cons.IH show ?thesis by auto
  qed
qed

lemma re_sub_mask_is_mask: "re_sub_mask cs = ''mask'' \<Longrightarrow> mask_run (CHR ''_'' # cs) \<noteq> None"
proof -
  assume a: "re_sub_mask cs = ''mask''"
  from re_sub_mask_cases [of cs] show ?thesis
  proof
    assume "re_sub_mask cs = cs"
    with a have "cs = ''mask''" by simp
    then show ?thesis by (subst mask_run.simps) simp
  next
    assume "\<exists>pre r. re_sub_mask cs = pre @ r \<and> prefix pre cs \<and>
        mask_run (drop (length pre) cs) = Some r"
    then obtain pre r where pr: "re_sub_mask cs = pre @ r" "prefix pre cs"
        "mask_run (drop (length pre) cs) = Some r"
      by blast
    from pr(3) have "r = [] \<or> r = [CHR 0x0A]" by (rule mask_run_tail)
    with a pr(1) have r: "r = []" and pre: "pre = ''mask''"
      by auto
    from pr(2) pre obtain rest where cs: "cs = ''mask'' @ rest"
      by (auto simp: prefix_def)
    with pr(3) pre r have run: "mask_run rest = Some []" by simp
    then have "rest \<noteq> [CHR 0x0A]"
      by (auto simp: mask_run.simps)
    with run cs show ?thesis
      by (simp add: mask_run_app)
  qed
qed

lemma re_sub_mask_no_suffix: "\<not> suffix ''_mask'' (re_sub_mask s)"
proof (induction s)
  case Nil
  then show ?case by simp
next
  case (Cons c cs)
  show ?case
  proof (cases "mask_run (c # cs)")
    case (Some r)
    then have "r = [] \<or> r = [CHR 0x0A]" by (rule mask_run_tail)
    with Some show ?thesis by (auto simp: suffix_def)
  next
    case None
    then have eq: "re_sub_mask (c # cs) = c # re_sub_mask cs" by simp
    have "c # re_sub_mask cs \<noteq> ''_mask''"
    proof
      assume "c # re_sub_mask cs = ''_mask''"
      then have "c = CHR ''_''" "re_sub_mask cs = ''mask''" by simp_all
      with re_sub_mask_is_mask None show False by blast
    qed
    with Cons.IH eq show ?thesis
      by (auto simp: suffix_Cons)
  qed
qed

lemma concat_replicate_snoc: "concat (replicate (Suc m) x) = concat (replicate m x) @ x"
  by (induction m) simp_all

lemma re_sub_mask_strip_one:
  "\<not> suffix ''_mask'' t \<Longrightarrow> re_sub_mask (t @ ''_mask'') = t"
proof (induction t)
  case Nil
  have "mask_run ''_mask'' = Some []" by (subst mask_run.simps) simp
  then show ?case by simp
next
  case (Cons c t)
  have none: "mask_run ((c # t) @ ''_mask'') = None"
  proof (rule ccontr)
    assume "mask_run ((c # t) @ ''_mask'') \<noteq> None"
    then obtain r where run: "mask_run ((c # t) @ ''_mask'') = Some r" by blast
    then obtain m where m: "(c # t) @ ''_mask'' = concat (replicate (Suc m) ''_mask'') @ r"
      using mask_run_shape by blast
    from run have "r = [] \<or> r = [CHR 0x0A]" by (rule mask_run_tail)
    moreover have "r \<noteq> [CHR 0x0A]"
    proof
      assume "r = [CHR 0x0A]"
      with m have "last ((c # t) @ ''_mask'') = last (concat (replicate (Suc m) ''_mask'') @ [CHR 0x0A])"
        by simp
      then show False by simp
    qed
    ultimately have "r = []" by blast
    with m have "(c # t) @ ''_mask'' = concat (replicate m ''_mask'') @ ''_mask''"
      by (simp only: concat_replicate_snoc append_Nil2)
    then have ct: "c # t = concat (replicate m ''_mask'')" by simp
    show False
    proof (cases m)
      case 0
      with ct show False by simp
    next
      case (Suc k)
      with ct have "c # t = concat (replicate k ''_mask'') @ ''_mask''"
        by (simp only: concat_replicate_snoc)
      then have "suffix ''_mask'' (c # t)" by (metis suffixI)
      with Cons.prems show False by blast
    qed
  qed
  from Cons.prems have "\<not> suffix ''_mask'' t"
    by (auto simp: suffix_Cons)
  with Cons.IH have "re_sub_mask (t @ ''_mask'') = t" by blast
  with none show ?case by simp
qed

lemma rfind_lower: "- 1 \<le> rfind c xs"
  by (induction xs) (auto simp: Let_def)

lemma rfind_append:
  "rfind c (xs @ ys) = (if 0 \<le> rfind c ys then rfind c ys + int (length xs) else rfind c xs)"
  using rfind_lower [of c ys] by (induction xs) (auto simp: Let_def)

lemma stem_mask_png: "path_name q = t @ ''_mask.png'' \<Longrightarrow> path_stem q = t @ ''_mask''"
proof -
  assume n: "path_name q = t @ ''_mask.png''"
  have "rfind (CHR ''.'') ''_mask.png'' = 5" by simp
  then have "rfind (CHR ''.'') (t @ ''_mask.png'') = 5 + int (length t)"
    by (simp only: rfind_append) simp
  moreover have "nat (5 + int (length t)) = length t + 5"
    by simp
  ultimately show ?thesis
    using n by (simp add: path_stem_def Let_def)
qed

lemma set_path_stem: "set (path_stem p) \<subseteq> set (path_name p)"
  by (auto simp: path_stem_def Let_def dest: in_set_takeD)

lemma overlay_path_total:
  assumes "path_name p \<noteq> [] \<and> CHR ''/'' \<notin> set (path_name p)"
  shows "\<exists>q. overlay_path p = Inr q"
proof -
  have "set (re_sub_mask (path_stem p)) \<subseteq> set (path_name p)"
    using set_re_sub_mask set_path_stem by blast
  with assms have "CHR ''/'' \<notin> set (re_sub_mask (path_stem p) @ ''_mask.png'')"
    by auto
  with assms show ?thesis
    by (simp add: overlay_path_def with_name_def Let_def)
qed

text \<open>
  C4. The overlay-name derivation is idempotent: whenever \<open>overlay_path p\<close> returns a
  path \<open>q\<close>, \<open>overlay_path q\<close> returns \<open>q\<close> again, and the stem of \<open>q\<close> ends with
  exactly one \<^verbatim>\<open>_mask\<close>: it is \<open>t @ ''_mask''\<close> for a \<open>t\<close> that does not itself end
  with \<^verbatim>\<open>_mask\<close>, however many such suffixes the stem of \<open>p\<close> carried. It returns a
  path for every \<open>p\<close> with a non-empty name (on the empty name \<^verbatim>\<open>with_name\<close> raises
  \<^verbatim>\<open>ValueError\<close>, in the first application already).
\<close>

theorem overlay_path_idempotent:
  "(path_name p \<noteq> [] \<and> CHR ''/'' \<notin> set (path_name p) \<longrightarrow> (\<exists>q. overlay_path p = Inr q)) \<and>
   (\<forall>q. overlay_path p = Inr q \<longrightarrow>
      overlay_path q = Inr q \<and>
      (\<exists>t. path_stem q = t @ ''_mask'' \<and> \<not> suffix ''_mask'' t))"
proof (rule conjI; (rule allI)?; rule impI)
  assume "path_name p \<noteq> [] \<and> CHR ''/'' \<notin> set (path_name p)"
  then show "\<exists>q. overlay_path p = Inr q"
    by (rule overlay_path_total)
next
  fix q
  assume r: "overlay_path p = Inr q"
  define t where "t = re_sub_mask (path_stem p)"
  from r have q: "q = butlast p @ [t @ ''_mask.png'']" and ok: "CHR ''/'' \<notin> set (t @ ''_mask.png'')"
    by (auto simp: overlay_path_def with_name_def Let_def t_def split: if_splits)
  have nt: "\<not> suffix ''_mask'' t"
    unfolding t_def by (rule re_sub_mask_no_suffix)
  from q have name: "path_name q = t @ ''_mask.png''"
    by (simp add: path_name_def)
  then have stem: "path_stem q = t @ ''_mask''"
    by (rule stem_mask_png)
  with nt have sub: "re_sub_mask (path_stem q) = t"
    by (simp add: re_sub_mask_strip_one)
  from q have "butlast q = butlast p" by simp
  with sub name ok q have "overlay_path q = Inr q"
    by (simp add: overlay_path_def with_name_def Let_def)
  with stem nt show "overlay_path q = Inr q \<and>
      (\<exists>t. path_stem q = t @ ''_mask'' \<and> \<not> suffix ''_mask'' t)"
    by blast
qed

theorem overlay_path_idempotent_witness:
  "overlay_path [''archive'', ''2024'', ''cam_mask_mask.jpg''] =
     Inr [''archive'', ''2024'', ''cam_mask.png''] \<and>
   overlay_path [''archive'', ''2024'', ''cam_mask.png''] =
     Inr [''archive'', ''2024'', ''cam_mask.png''] \<and>
   path_stem [''archive'', ''2024'', ''cam_mask.png''] = ''cam_mask'' \<and>
   \<not> suffix ''_mask'' ''cam''"
proof -
  have "overlay_path [''archive'', ''2024'', ''cam_mask_mask.jpg''] =
      Inr [''archive'', ''2024'', ''cam_mask.png'']"
    by code_simp
  moreover have "path_stem [''archive'', ''2024'', ''cam_mask.png''] = ''cam_mask''"
    by code_simp
  moreover have "\<not> suffix ''_mask'' ''cam''"
    by (simp add: suffix_def)
  ultimately show ?thesis
    using overlay_path_idempotent [of "[''archive'', ''2024'', ''cam_mask_mask.jpg'']"]
    by simp
qed

subsection \<open>File system lemmas\<close>











subsection \<open>Relocation\<close>







subsection \<open>The archive layout\<close>














subsection \<open>Retention\<close>










subsection \<open>A missing storage root\<close>



subsection \<open>Recent frames\<close>

text \<open>
  C5. \<open>list_recent_images\<close> without overlays does not return every raw frame: the
  newest file of \<open>fs_recent_ex\<close>, \<^verbatim>\<open>cam_mask_01.jpg\<close>, is a regular file whose stem does
  not end with the overlay suffix, and it is left out, because \<open>is_overlay\<close> looks
  for \<^verbatim>\<open>_mask\<close> anywhere in the name. With overlays included it comes first.
\<close>

theorem list_recent_images_drops_raw_frame:
  "list_recent_images no_faults fs_recent_ex [''archive''] 2 False =
     Inr [[''archive'', ''cam_02.jpg'']] \<and>
   is_file fs_recent_ex [''archive'', ''cam_mask_01.jpg''] \<and>
   path_stem [''archive'', ''cam_mask_01.jpg''] = ''cam_mask_01'' \<and>
   \<not> suffix ''_mask'' ''cam_mask_01'' \<and>
   list_recent_images no_faults fs_recent_ex [''archive''] 2 True =
     Inr [[''archive'', ''cam_mask_01.jpg''], [''archive'', ''cam_02_mask.png'']]"
proof -
  have "list_recent_images no_faults fs_recent_ex [''archive''] 2 False =
      Inr [[''archive'', ''cam_02.jpg'']]"
    by code_simp
  moreover have "list_recent_images no_faults fs_recent_ex [''archive''] 2 True =
      Inr [[''archive'', ''cam_mask_01.jpg''], [''archive'', ''cam_02_mask.png'']]"
    by code_simp
  moreover have "is_file fs_recent_ex [''archive'', ''cam_mask_01.jpg'']"
    by (simp add: is_file_def node_at_def fs_recent_ex_def)
  moreover have "path_stem [''archive'', ''cam_mask_01.jpg''] = ''cam_mask_01''"
    by code_simp
  moreover have "\<not> suffix ''_mask'' ''cam_mask_01''"
    by (simp add: suffix_def)
  ultimately show ?thesis by blast
qed

end
